theory Spec2Isabelle
  imports
    Complex_Main
    "HOL-Library.Char_ord"
    "HOL-Library.List_Lexorder"
    "HOL-Library.Multiset"
    "HOL-Library.Sublist"
begin

section \<open>Data model of the attendance analyzer\<close>

text \<open>
  The program keeps one pandas data frame in \<open>self.df\<close>. A frame is modelled by its column
  labels and its rows. A row carries the three cells the program reads (\<open>Student Name\<close>,
  \<open>Date\<close>, \<open>Status\<close>) and the cells of any further column. Every function below tests
  the column labels before it reads a cell, exactly where the program tests or indexes
  \<open>df.columns\<close>, so the cell of an absent column is never read.

  A \<open>Date\<close> cell is the text read from the CSV file until line 108 of \<open>main.py\<close> replaces
  the column by \<open>pd.to_datetime\<close> of itself; from then on it is a time stamp. A time stamp
  is an instant on the time line (pandas counts nanoseconds), an \<open>int\<close> here.

  Every row has its name, its date cell and its status: the records are those of the
  data model, where the three fields are required, and a cell left empty in the file,
  which pandas reads as a missing value, is outside the model. Names and statuses are
  strings, ordered as Python orders them, character by character.

  Percentages are exact rationals: the rounding of the 64-bit floats of pandas is not
  part of the model.
\<close>

datatype date_cell = Raw string | Stamp int

record row =
  student_name :: string
  date :: date_cell
  status :: string
  extra :: "string list"

record dataframe =
  columns :: "string list"
  rows :: "row list"

text \<open>A pandas Series indexed by student name, in index order.\<close>

type_synonym series = "(string \<times> rat) list"

text \<open>
  The Python exceptions the program raises or receives from its libraries. A message
  that quotes the offending value is cut down to its fixed part.
\<close>

datatype exn =
    ValueError string
  | KeyError string
  | AttributeError string
  | OSError string

record insights =
  most_regular :: string
  least_regular :: string
  overall_attendance :: rat

text \<open>The message boxes, by the data that determines their text.\<close>

datatype info =
    FileLoaded
  | AttendanceSummary series
  | AttendanceInsights insights
  | NoData

datatype failed = FailedToLoad | FailedToAnalyze | FailedToFilter

datatype dialog = ShowInfo info | ShowError failed exn

text \<open>
  The state of \<open>AttendanceAnalyzerApp\<close>: the attribute \<open>df\<close>, absent until the first
  upload, and the text of the two entry widgets.
\<close>

record app =
  df :: "dataframe option"
  start_date_entry :: string
  end_date_entry :: string

section \<open>The aggregation of \<open>analyze_attendance\<close>\<close>

text \<open>
  Line 65: \<open>df.groupby("Student Name")["Status"].apply(lambda x: (x == "Present").mean() * 100)\<close>.
  \<open>groupby\<close> sorts its keys (\<open>sort=True\<close> is the default) and yields one group per
  distinct name, holding that name's rows in frame order. The mean of a boolean column
  is the number of \<open>True\<close> entries over the number of entries.
\<close>

definition group_keys :: "row list \<Rightarrow> string list" where
  "group_keys rs = sort (remdups (map student_name rs))"

definition get_group :: "row list \<Rightarrow> string \<Rightarrow> row list" where
  "get_group rs k = filter (\<lambda>r. student_name r = k) rs"

definition bool_mean :: "bool list \<Rightarrow> rat" where
  "bool_mean bs = of_nat (length (filter (\<lambda>b. b) bs)) / of_nat (length bs)"

definition present_share :: "string list \<Rightarrow> rat" where
  "present_share x = bool_mean (map (\<lambda>s. s = ''Present'') x) * 100"

definition attendance_summary :: "row list \<Rightarrow> series" where
  "attendance_summary rs =
     map (\<lambda>k. (k, present_share (map status (get_group rs k)))) (group_keys rs)"

text \<open>
  Lines 83 to 85. \<open>idxmax\<close> and \<open>idxmin\<close> return the label of the first occurrence of the
  extreme value and raise \<open>ValueError\<close> on an empty series. \<open>mean\<close> is the sum over the
  number of entries; it is only reached on a series that is not empty.
\<close>

fun argmax_from :: "string \<times> rat \<Rightarrow> series \<Rightarrow> string \<times> rat" where
  "argmax_from b [] = b"
| "argmax_from b (x # xs) = argmax_from (if snd b < snd x then x else b) xs"

fun argmin_from :: "string \<times> rat \<Rightarrow> series \<Rightarrow> string \<times> rat" where
  "argmin_from b [] = b"
| "argmin_from b (x # xs) = argmin_from (if snd x < snd b then x else b) xs"

fun idxmax :: "series \<Rightarrow> exn + string" where
  "idxmax [] = Inl (ValueError ''attempt to get argmax of an empty sequence'')"
| "idxmax (x # xs) = Inr (fst (argmax_from x xs))"

fun idxmin :: "series \<Rightarrow> exn + string" where
  "idxmin [] = Inl (ValueError ''attempt to get argmin of an empty sequence'')"
| "idxmin (x # xs) = Inr (fst (argmin_from x xs))"

definition series_mean :: "series \<Rightarrow> rat" where
  "series_mean s = sum_list (map snd s) / of_nat (length s)"

definition compute_insights :: "series \<Rightarrow> exn + insights" where
  "compute_insights s =
     (case idxmax s of
        Inl e \<Rightarrow> Inl e
      | Inr mx \<Rightarrow>
          (case idxmin s of
             Inl e \<Rightarrow> Inl e
           | Inr mn \<Rightarrow>
               Inr \<lparr>most_regular = mx, least_regular = mn,
                    overall_attendance = series_mean s\<rparr>))"

definition required_columns :: "string list" where
  "required_columns = [''Student Name'', ''Date'', ''Status'']"

text \<open>
  \<open>analyze_attendance\<close>, lines 58 to 95, as the message boxes it shows. The chart of
  lines 68 to 76 is drawn by the plotting library and is not modelled. Every exception
  is caught by the handler of line 94.
\<close>

definition analyze_attendance :: "dataframe \<Rightarrow> dialog list" where
  "analyze_attendance d =
     (if \<not> set required_columns \<subseteq> set (columns d) then
        [ShowError FailedToAnalyze
           (ValueError ''CSV must contain 'Student Name', 'Date', and 'Status' columns.'')]
      else
        let s = attendance_summary (rows d) in
        ShowInfo (AttendanceSummary s) #
          (case compute_insights s of
             Inl e \<Rightarrow> [ShowError FailedToAnalyze e]
           | Inr i \<Rightarrow> [ShowInfo (AttendanceInsights i)]))"

section \<open>The date filter of \<open>analyze_with_date_filter\<close>\<close>

text \<open>
  Line 108: \<open>pd.to_datetime\<close> parses every text cell and keeps a time stamp as it is; one
  cell that does not parse raises \<open>ValueError\<close> and nothing is assigned. The parser of
  the library is a parameter, applied cell by cell.
\<close>

fun cell_to_datetime :: "(string \<Rightarrow> int option) \<Rightarrow> date_cell \<Rightarrow> int option" where
  "cell_to_datetime parse (Raw s) = parse s"
| "cell_to_datetime parse (Stamp t) = Some t"

definition to_datetime :: "(string \<Rightarrow> int option) \<Rightarrow> date_cell list \<Rightarrow> exn + int list" where
  "to_datetime parse cs =
     (case those (map (cell_to_datetime parse) cs) of
        None \<Rightarrow> Inl (ValueError ''Unknown datetime string format'')
      | Some ts \<Rightarrow> Inr ts)"

text \<open>The assignment \<open>self.df['Date'] = ...\<close>: the column is replaced, row by row.\<close>

definition set_date_column :: "row list \<Rightarrow> int list \<Rightarrow> row list" where
  "set_date_column rs ts = map (\<lambda>(r, t). r\<lparr>date := Stamp t\<rparr>) (zip rs ts)"

text \<open>
  Line 109: the boolean mask \<open>(Date >= start) & (Date <= end)\<close> over the column just
  assigned, and the selection of the rows where it holds.
\<close>

definition range_mask :: "int list \<Rightarrow> int \<Rightarrow> int \<Rightarrow> bool list" where
  "range_mask ts start_date end_date = map (\<lambda>t. t \<ge> start_date \<and> t \<le> end_date) ts"

definition select_rows :: "row list \<Rightarrow> bool list \<Rightarrow> row list" where
  "select_rows rs msk = map fst (filter snd (zip rs msk))"

text \<open>
  Lines 108 and 109 together, the date filter of the specification: the frame as it is
  stored afterwards, and the filtered frame.
\<close>

definition filter_by_range ::
  "(string \<Rightarrow> int option) \<Rightarrow> dataframe \<Rightarrow> int \<Rightarrow> int \<Rightarrow> exn + (dataframe \<times> dataframe)" where
  "filter_by_range parse d start_date end_date =
     (if ''Date'' \<notin> set (columns d) then Inl (KeyError ''Date'')
      else
        (case to_datetime parse (map date (rows d)) of
           Inl e \<Rightarrow> Inl e
         | Inr ts \<Rightarrow>
             let stored = d\<lparr>rows := set_date_column (rows d) ts\<rparr> in
             Inr (stored,
                  stored\<lparr>rows := select_rows (rows stored) (range_mask ts start_date end_date)\<rparr>)))"

text \<open>
  \<open>analyze_with_date_filter\<close>, lines 97 to 118. \<open>strptime\<close> is
  \<open>datetime.strptime(_, "%Y-%m-%d")\<close>, a parameter: the instant of midnight of the day
  written, or nothing where the text does not match the format.
\<close>

definition analyze_with_date_filter ::
  "(string \<Rightarrow> int option) \<Rightarrow> (string \<Rightarrow> int option) \<Rightarrow> app \<Rightarrow> dialog list \<times> app" where
  "analyze_with_date_filter strptime parse a =
     (if start_date_entry a = [] \<or> end_date_entry a = [] then
        ([ShowError FailedToFilter (ValueError ''Please enter both start and end dates.'')], a)
      else
        (case strptime (start_date_entry a) of
           None \<Rightarrow> ([ShowError FailedToFilter (ValueError ''time data does not match format'')], a)
         | Some start_date \<Rightarrow>
             (case strptime (end_date_entry a) of
                None \<Rightarrow>
                  ([ShowError FailedToFilter (ValueError ''time data does not match format'')], a)
              | Some end_date \<Rightarrow>
                  (case df a of
                     None \<Rightarrow> ([ShowError FailedToFilter (AttributeError ''df'')], a)
                   | Some d \<Rightarrow>
                       (case filter_by_range parse d start_date end_date of
                          Inl e \<Rightarrow> ([ShowError FailedToFilter e], a)
                        | Inr (stored, filtered_df) \<Rightarrow>
                            if rows filtered_df = [] then
                              ([ShowInfo NoData], a\<lparr>df := Some stored\<rparr>)
                            else
                              (analyze_attendance filtered_df, a\<lparr>df := Some stored\<rparr>))))))"

section \<open>Loading a file\<close>

text \<open>
  \<open>load_and_analyze\<close>, lines 44 to 56. The argument is what the file dialog and
  \<open>pd.read_csv\<close> deliver: nothing when the dialog is cancelled, an exception when the
  file cannot be read, a frame otherwise. The assignment to \<open>self.df\<close> of line 50 comes
  before the columns are looked at, in line 61. The copy written by line 51 is not
  modelled.
\<close>

definition load_and_analyze :: "(exn + dataframe) option \<Rightarrow> app \<Rightarrow> dialog list \<times> app" where
  "load_and_analyze upload a =
     (case upload of
        None \<Rightarrow> ([], a)
      | Some (Inl e) \<Rightarrow> ([ShowError FailedToLoad e], a)
      | Some (Inr d) \<Rightarrow> (ShowInfo FileLoaded # analyze_attendance d, a\<lparr>df := Some d\<rparr>))"

section \<open>The specification's words, and sample data\<close>

text \<open>
  The attendance percentage in the words of the specification: a hundred times the
  number of a student's records whose status is the string \<open>Present\<close>, over the number of
  that student's records.
\<close>

definition spec_percentage :: "row list \<Rightarrow> string \<Rightarrow> rat" where
  "spec_percentage rs name =
     100 * of_nat (length (filter (\<lambda>r. student_name r = name \<and> status r = ''Present'') rs))
       / of_nat (length (filter (\<lambda>r. student_name r = name) rs))"

text \<open>A record is dated within a range when its time stamp lies between the two bounds.\<close>

definition dated_within :: "int \<Rightarrow> int \<Rightarrow> row \<Rightarrow> bool" where
  "dated_within start_date end_date r =
     (case date r of Stamp t \<Rightarrow> start_date \<le> t \<and> t \<le> end_date | Raw _ \<Rightarrow> False)"

text \<open>
  A stored row is the parsed form of a row when it differs from it in the \<open>Date\<close> cell
  only, which holds the time stamp that the cell of the row parses to.
\<close>

definition parsed_from :: "(string \<Rightarrow> int option) \<Rightarrow> row \<Rightarrow> row \<Rightarrow> bool" where
  "parsed_from parse r r' =
     (case cell_to_datetime parse (date r) of
        None \<Rightarrow> False
      | Some t \<Rightarrow> r' = r\<lparr>date := Stamp t\<rparr>)"

text \<open>
  A frame holds attendance records with dates when it has a \<open>Date\<close> column and every cell
  of that column is a date: a time stamp, or text that parses to one.
\<close>

definition well_dated :: "(string \<Rightarrow> int option) \<Rightarrow> dataframe \<Rightarrow> bool" where
  "well_dated parse d \<longleftrightarrow>
     ''Date'' \<in> set (columns d)
     \<and> list_all (\<lambda>r. cell_to_datetime parse (date r) \<noteq> None) (rows d)"

text \<open>
  The date-filtered analysis reaches the assignment of line 108 when both entries are
  filled in and accepted by \<open>strptime\<close>, a frame is stored, and that frame has a \<open>Date\<close>
  column whose cells all are dates.
\<close>

definition filter_reached ::
  "(string \<Rightarrow> int option) \<Rightarrow> (string \<Rightarrow> int option) \<Rightarrow> app \<Rightarrow> bool" where
  "filter_reached strptime parse a \<longleftrightarrow>
     start_date_entry a \<noteq> [] \<and> end_date_entry a \<noteq> []
     \<and> strptime (start_date_entry a) \<noteq> None \<and> strptime (end_date_entry a) \<noteq> None
     \<and> (case df a of None \<Rightarrow> False | Some d \<Rightarrow> well_dated parse d)"

text \<open>
  The example of the specification: Alice present on the first of January 2024 and absent
  on the second, Bob present on both days. The sample parser knows three days, by their
  midnight in nanoseconds since 1970.
\<close>

definition mk_row :: "string \<Rightarrow> string \<Rightarrow> string \<Rightarrow> row" where
  "mk_row n d s = \<lparr>student_name = n, date = Raw d, status = s, extra = []\<rparr>"

definition sample_rows :: "row list" where
  "sample_rows =
     [mk_row ''Alice'' ''2024-01-01'' ''Present'',
      mk_row ''Alice'' ''2024-01-02'' ''Absent'',
      mk_row ''Bob'' ''2024-01-01'' ''Present'',
      mk_row ''Bob'' ''2024-01-02'' ''Present'']"

definition sample_frame :: dataframe where
  "sample_frame = \<lparr>columns = [''Student Name'', ''Date'', ''Status''], rows = sample_rows\<rparr>"

definition sample_parse :: "string \<Rightarrow> int option" where
  "sample_parse s =
     (if s = ''2024-01-01'' then Some 1704067200000000000
      else if s = ''2024-01-02'' then Some 1704153600000000000
      else if s = ''2024-02-01'' then Some 1706745600000000000
      else None)"

text \<open>One student with a single record present, another with three records absent.\<close>

definition uneven_rows :: "row list" where
  "uneven_rows =
     [mk_row ''Ann'' ''2024-01-01'' ''Present'',
      mk_row ''Ben'' ''2024-01-01'' ''Absent'',
      mk_row ''Ben'' ''2024-01-02'' ''Absent'',
      mk_row ''Ben'' ''2024-02-01'' ''absent'']"

text \<open>
  Two students tied at the top and two at the bottom; the records do not come in the order
  of the names.
\<close>

definition tie_rows :: "row list" where
  "tie_rows =
     [mk_row ''Zed'' ''2024-01-01'' ''Present'',
      mk_row ''Cal'' ''2024-01-01'' ''Absent'',
      mk_row ''Bob'' ''2024-01-01'' ''Absent'',
      mk_row ''Amy'' ''2024-01-01'' ''Present'']"

text \<open>Application states and uploads for the examples.\<close>

definition sample_app :: app where
  "sample_app =
     \<lparr>df = Some sample_frame, start_date_entry = ''2024-01-01'', end_date_entry = ''2024-01-01''\<rparr>"

definition reversed_app :: app where
  "reversed_app =
     \<lparr>df = Some sample_frame, start_date_entry = ''2024-02-01'', end_date_entry = ''2024-01-01''\<rparr>"

definition bad_entry_app :: app where
  "bad_entry_app =
     \<lparr>df = Some sample_frame, start_date_entry = ''01/01/2024'', end_date_entry = ''2024-01-01''\<rparr>"

definition no_status_frame :: dataframe where
  "no_status_frame =
     \<lparr>columns = [''Student Name'', ''Date''],
      rows = [\<lparr>student_name = ''Carol'', date = Raw ''2024-02-01'', status = [], extra = []\<rparr>]\<rparr>"

definition header_only_frame :: dataframe where
  "header_only_frame = \<lparr>columns = [''Student Name'', ''Date'', ''Status''], rows = []\<rparr>"

section \<open>Properties of the aggregation\<close>

lemma set_group_keys: "set (group_keys rs) = student_name ` set rs"
  by (simp add: group_keys_def)

lemma sorted_group_keys: "sorted (group_keys rs)"
  by (simp add: group_keys_def)

lemma distinct_group_keys: "distinct (group_keys rs)"
  by (simp add: group_keys_def)

lemma map_fst_summary: "map fst (attendance_summary rs) = group_keys rs"
  by (simp add: attendance_summary_def comp_def)

lemma present_share_group: "present_share (map status (get_group rs k)) = spec_percentage rs k"
  by (simp add: present_share_def bool_mean_def get_group_def spec_percentage_def
      filter_map comp_def conj_commute)

lemma summary_spec:
  "attendance_summary rs = map (\<lambda>k. (k, spec_percentage rs k)) (group_keys rs)"
  by (simp add: attendance_summary_def present_share_group)

lemma map_of_tabulate:
  "map_of (map (\<lambda>k. (k, f k)) ks) k = (if k \<in> set ks then Some (f k) else None)"
  by (induction ks) auto

lemma group_nonempty:
  "r \<in> set rs \<Longrightarrow> 0 < length (filter (\<lambda>x. student_name x = student_name r) rs)"
  by (auto simp: filter_empty_conv)

text \<open>
  Claim C1. Every student with a record in the set has exactly one entry in the summary,
  and its percentage is a hundred times the number of that student's records whose status
  is the string \<open>Present\<close> over the number of that student's records, which is not zero.
\<close>

theorem summary_percentage:
  assumes "r \<in> set rs"
  shows "map_of (attendance_summary rs) (student_name r) =
           Some (100 * of_nat (length (filter (\<lambda>x. student_name x = student_name r
                                                 \<and> status x = ''Present'') rs))
                   / of_nat (length (filter (\<lambda>x. student_name x = student_name r) rs)))
         \<and> 0 < length (filter (\<lambda>x. student_name x = student_name r) rs)
         \<and> distinct (map fst (attendance_summary rs))"
proof -
  have "student_name r \<in> set (group_keys rs)"
    using assms by (simp add: set_group_keys)
  then have "map_of (attendance_summary rs) (student_name r) =
      Some (spec_percentage rs (student_name r))"
    by (simp add: summary_spec map_of_tabulate)
  moreover have "distinct (map fst (attendance_summary rs))"
    by (simp only: map_fst_summary distinct_group_keys)
  ultimately show ?thesis
    using group_nonempty[OF assms] by (simp add: spec_percentage_def)
qed

text \<open>
  On the uneven sample Ben has three records, none of them \<open>Present\<close>; the last one reads
  \<open>absent\<close> in lower case.
\<close>

theorem summary_percentage_witness:
  "mk_row ''Ben'' ''2024-02-01'' ''absent'' \<in> set uneven_rows
   \<and> map_of (attendance_summary uneven_rows) ''Ben'' = Some 0
   \<and> 0 < length (filter (\<lambda>x. student_name x = ''Ben'') uneven_rows)"
  using summary_percentage[of "mk_row ''Ben'' ''2024-02-01'' ''absent''" uneven_rows]
  by (simp add: uneven_rows_def mk_row_def)

lemma spec_percentage_bounds: "0 \<le> spec_percentage rs k \<and> spec_percentage rs k \<le> 100"
proof -
  let ?p = "length (filter (\<lambda>r. student_name r = k \<and> status r = ''Present'') rs)"
  let ?n = "length (filter (\<lambda>r. student_name r = k) rs)"
  have "?p = length (filter (\<lambda>r. status r = ''Present'') (filter (\<lambda>r. student_name r = k) rs))"
    by (simp add: conj_commute)
  then have le: "?p \<le> ?n" by (metis length_filter_le)
  show ?thesis
  proof (cases "?n = 0")
    case True
    then show ?thesis by (simp add: spec_percentage_def)
  next
    case False
    then have "(of_nat ?p :: rat) / of_nat ?n \<le> 1" using le by (simp add: divide_le_eq_1)
    then show ?thesis by (simp add: spec_percentage_def)
  qed
qed

lemma series_mean_summary:
  "series_mean (attendance_summary rs) =
     (\<Sum>k \<in> student_name ` set rs. spec_percentage rs k) / of_nat (card (student_name ` set rs))"
proof -
  have "sum_list (map snd (attendance_summary rs)) = sum_list (map (spec_percentage rs) (group_keys rs))"
    by (simp add: summary_spec comp_def)
  also have "\<dots> = sum (spec_percentage rs) (set (group_keys rs))"
    by (simp add: sum_list_distinct_conv_sum_set distinct_group_keys)
  finally have s: "sum_list (map snd (attendance_summary rs)) = sum (spec_percentage rs) (student_name ` set rs)"
    by (simp add: set_group_keys)
  have "length (attendance_summary rs) = length (group_keys rs)"
    by (simp add: attendance_summary_def)
  also have "\<dots> = card (set (group_keys rs))"
    by (simp add: distinct_card distinct_group_keys)
  finally have l: "length (attendance_summary rs) = card (student_name ` set rs)"
    by (simp add: set_group_keys)
  show ?thesis by (simp add: series_mean_def s l)
qed

lemma summary_nonempty: "rs \<noteq> [] \<Longrightarrow> attendance_summary rs \<noteq> []"
proof -
  assume "rs \<noteq> []"
  then have "set (group_keys rs) \<noteq> {}" by (simp add: set_group_keys)
  then show ?thesis by (auto simp: attendance_summary_def)
qed

lemma compute_insights_nonempty:
  "s \<noteq> [] \<Longrightarrow> compute_insights s =
     Inr \<lparr>most_regular = fst (argmax_from (hd s) (tl s)),
          least_regular = fst (argmin_from (hd s) (tl s)),
          overall_attendance = series_mean s\<rparr>"
  by (cases s) (simp_all add: compute_insights_def)

text \<open>
  Claim C2. For a record set that is not empty, every percentage of the summary lies
  between 0 and 100, the insights are computed, and the overall attendance is the sum of
  the summary's percentages over their number: the mean, over the distinct students, of
  the percentage the specification gives each of them. On the uneven sample that mean is
  50, where the share of \<open>Present\<close> among all records is 25.
\<close>

theorem percentages_bounded_overall_mean:
  assumes "rs \<noteq> []"
  shows "(\<forall>(k, p) \<in> set (attendance_summary rs). 0 \<le> p \<and> p \<le> 100)
       \<and> (\<exists>i. compute_insights (attendance_summary rs) = Inr i
            \<and> overall_attendance i =
                sum_list (map snd (attendance_summary rs)) / of_nat (length (attendance_summary rs))
            \<and> overall_attendance i =
                (\<Sum>k \<in> student_name ` set rs. spec_percentage rs k)
                  / of_nat (card (student_name ` set rs)))
       \<and> 0 < length (attendance_summary rs)"
proof -
  have b: "\<forall>(k, p) \<in> set (attendance_summary rs). 0 \<le> p \<and> p \<le> 100"
    using spec_percentage_bounds by (auto simp: summary_spec)
  have ne: "attendance_summary rs \<noteq> []" using assms by (rule summary_nonempty)
  have "overall_attendance \<lparr>most_regular = fst (argmax_from (hd (attendance_summary rs)) (tl (attendance_summary rs))),
          least_regular = fst (argmin_from (hd (attendance_summary rs)) (tl (attendance_summary rs))),
          overall_attendance = series_mean (attendance_summary rs)\<rparr> = series_mean (attendance_summary rs)"
    by simp
  then have "\<exists>i. compute_insights (attendance_summary rs) = Inr i
            \<and> overall_attendance i = series_mean (attendance_summary rs)"
    using compute_insights_nonempty[OF ne] by blast
  then have "\<exists>i. compute_insights (attendance_summary rs) = Inr i
            \<and> overall_attendance i =
                sum_list (map snd (attendance_summary rs)) / of_nat (length (attendance_summary rs))
            \<and> overall_attendance i =
                (\<Sum>k \<in> student_name ` set rs. spec_percentage rs k)
                  / of_nat (card (student_name ` set rs))"
    using series_mean_summary[of rs] by (auto simp: series_mean_def)
  then show ?thesis using b ne by blast
qed

theorem percentages_bounded_overall_mean_witness:
  "uneven_rows \<noteq> []
   \<and> attendance_summary uneven_rows = [(''Ann'', 100), (''Ben'', 0)]
   \<and> (\<exists>i. compute_insights (attendance_summary uneven_rows) = Inr i \<and> overall_attendance i = 50)
   \<and> 100 * rat_of_nat (length (filter (\<lambda>r. status r = ''Present'') uneven_rows))
         / rat_of_nat (length uneven_rows) = 25"
proof -
  have s: "attendance_summary uneven_rows = [(''Ann'', 100), (''Ben'', 0)]"
    by (simp add: uneven_rows_def mk_row_def attendance_summary_def group_keys_def get_group_def
        present_share_def bool_mean_def)
  have n: "uneven_rows \<noteq> []" by (simp add: uneven_rows_def)
  have r: "100 * rat_of_nat (length (filter (\<lambda>r. status r = ''Present'') uneven_rows))
         / rat_of_nat (length uneven_rows) = 25"
    by (simp add: uneven_rows_def mk_row_def)
  from percentages_bounded_overall_mean[OF n] obtain i where
    "compute_insights (attendance_summary uneven_rows) = Inr i"
    "overall_attendance i =
       sum_list (map snd (attendance_summary uneven_rows)) / of_nat (length (attendance_summary uneven_rows))"
    by blast
  then have "\<exists>i. compute_insights (attendance_summary uneven_rows) = Inr i \<and> overall_attendance i = 50"
    by (simp add: s)
  then show ?thesis using s n r by blast
qed

lemma argmax_from_split:
  "\<exists>pre post. b # xs = pre @ argmax_from b xs # post
     \<and> (\<forall>y \<in> set pre. snd y < snd (argmax_from b xs))
     \<and> (\<forall>y \<in> set post. snd y \<le> snd (argmax_from b xs))"
proof (induction xs arbitrary: b)
  case Nil
  show ?case by (rule exI[of _ "[]"], rule exI[of _ "[]"]) simp
next
  case (Cons x xs)
  show ?case
  proof (cases "snd b < snd x")
    case True
    define m where "m = argmax_from x xs"
    have r: "argmax_from b (x # xs) = m" using True by (simp add: m_def)
    from Cons.IH[of x] obtain pre post where
      sp: "pre @ m # post = x # xs"
      and lt: "\<forall>y \<in> set pre. snd y < snd m"
      and le: "\<forall>y \<in> set post. snd y \<le> snd m" unfolding m_def[symmetric] by metis
    have "x \<in> set (pre @ m # post)" unfolding sp by simp
    then have "snd x \<le> snd m" using lt le by auto
    then have bm: "snd b < snd m" using True by simp
    have "b # x # xs = (b # pre) @ m # post" using sp by simp
    moreover have "\<forall>y \<in> set (b # pre). snd y < snd m" using lt bm by simp
    ultimately show ?thesis unfolding r using le by blast
  next
    case False
    define m where "m = argmax_from b xs"
    have r: "argmax_from b (x # xs) = m" using False by (simp add: m_def)
    from Cons.IH[of b] obtain pre post where
      sp: "pre @ m # post = b # xs"
      and lt: "\<forall>y \<in> set pre. snd y < snd m"
      and le: "\<forall>y \<in> set post. snd y \<le> snd m" unfolding m_def[symmetric] by metis
    show ?thesis
    proof (cases pre)
      case Nil
      then have mb: "m = b" and xs: "xs = post" using sp by simp_all
      have "b # x # xs = [] @ m # (x # post)" using mb xs by simp
      moreover have "\<forall>y \<in> set (x # post). snd y \<le> snd m" using le False mb by simp
      ultimately show ?thesis unfolding r by (metis empty_iff empty_set)
    next
      case (Cons p pre')
      then have pb: "p = b" and xs: "pre' @ m # post = xs" using sp by simp_all
      have bm: "snd b < snd m" using lt Cons pb by simp
      have "b # x # xs = (b # x # pre') @ m # post" using xs by simp
      moreover have "\<forall>y \<in> set (b # x # pre'). snd y < snd m"
        using lt Cons pb bm False by auto
      ultimately show ?thesis unfolding r using le by blast
    qed
  qed
qed


lemma argmin_from_split:
  "\<exists>pre post. b # xs = pre @ argmin_from b xs # post
     \<and> (\<forall>y \<in> set pre. snd (argmin_from b xs) < snd y)
     \<and> (\<forall>y \<in> set post. snd (argmin_from b xs) \<le> snd y)"
proof (induction xs arbitrary: b)
  case Nil
  show ?case by (rule exI[of _ "[]"], rule exI[of _ "[]"]) simp
next
  case (Cons x xs)
  show ?case
  proof (cases "snd x < snd b")
    case True
    define m where "m = argmin_from x xs"
    have r: "argmin_from b (x # xs) = m" using True by (simp add: m_def)
    from Cons.IH[of x] obtain pre post where
      sp: "pre @ m # post = x # xs"
      and lt: "\<forall>y \<in> set pre. snd m < snd y"
      and le: "\<forall>y \<in> set post. snd m \<le> snd y" unfolding m_def[symmetric] by metis
    have "x \<in> set (pre @ m # post)" unfolding sp by simp
    then have "snd m \<le> snd x" using lt le by auto
    then have bm: "snd m < snd b" using True by simp
    have "b # x # xs = (b # pre) @ m # post" using sp by simp
    moreover have "\<forall>y \<in> set (b # pre). snd m < snd y" using lt bm by simp
    ultimately show ?thesis unfolding r using le by blast
  next
    case False
    define m where "m = argmin_from b xs"
    have r: "argmin_from b (x # xs) = m" using False by (simp add: m_def)
    from Cons.IH[of b] obtain pre post where
      sp: "pre @ m # post = b # xs"
      and lt: "\<forall>y \<in> set pre. snd m < snd y"
      and le: "\<forall>y \<in> set post. snd m \<le> snd y" unfolding m_def[symmetric] by metis
    show ?thesis
    proof (cases pre)
      case Nil
      then have mb: "m = b" and xs: "xs = post" using sp by simp_all
      have "b # x # xs = [] @ m # (x # post)" using mb xs by simp
      moreover have "\<forall>y \<in> set (x # post). snd m \<le> snd y" using le False mb by simp
      ultimately show ?thesis unfolding r by (metis empty_iff empty_set)
    next
      case (Cons p pre')
      then have pb: "p = b" and xs: "pre' @ m # post = xs" using sp by simp_all
      have bm: "snd m < snd b" using lt Cons pb by simp
      have "b # x # xs = (b # x # pre') @ m # post" using xs by simp
      moreover have "\<forall>y \<in> set (b # x # pre'). snd m < snd y"
        using lt Cons pb bm False by auto
      ultimately show ?thesis unfolding r using le by blast
    qed
  qed
qed


lemma idxmax_first_max:
  assumes "s \<noteq> []"
  shows "\<exists>m p pre post. idxmax s = Inr m \<and> s = pre @ (m, p) # post
     \<and> (\<forall>y \<in> set pre. snd y < p) \<and> (\<forall>y \<in> set post. snd y \<le> p)"
proof -
  obtain b xs where s: "s = b # xs" using assms by (cases s) auto
  define m where "m = argmax_from b xs"
  have i: "idxmax s = Inr (fst m)" by (simp add: s m_def)
  obtain pre post where
    sp: "s = pre @ m # post"
    and lt: "\<forall>y \<in> set pre. snd y < snd m"
    and le: "\<forall>y \<in> set post. snd y \<le> snd m"
    using argmax_from_split[of b xs] unfolding m_def[symmetric] s[symmetric] by blast
  have "s = pre @ (fst m, snd m) # post" using sp by simp
  then show ?thesis using i lt le by blast
qed

lemma idxmin_first_min:
  assumes "s \<noteq> []"
  shows "\<exists>m p pre post. idxmin s = Inr m \<and> s = pre @ (m, p) # post
     \<and> (\<forall>y \<in> set pre. p < snd y) \<and> (\<forall>y \<in> set post. p \<le> snd y)"
proof -
  obtain b xs where s: "s = b # xs" using assms by (cases s) auto
  define m where "m = argmin_from b xs"
  have i: "idxmin s = Inr (fst m)" by (simp add: s m_def)
  obtain pre post where
    sp: "s = pre @ m # post"
    and lt: "\<forall>y \<in> set pre. snd m < snd y"
    and le: "\<forall>y \<in> set post. snd m \<le> snd y"
    using argmin_from_split[of b xs] unfolding m_def[symmetric] s[symmetric] by blast
  have "s = pre @ (fst m, snd m) # post" using sp by simp
  then show ?thesis using i lt le by blast
qed

lemma compute_insights_Inr:
  assumes "idxmax s = Inr mx" and "idxmin s = Inr mn"
  shows "compute_insights s =
     Inr \<lparr>most_regular = mx, least_regular = mn, overall_attendance = series_mean s\<rparr>"
  using assms by (simp add: compute_insights_def)

lemma insights_first_extremes:
  assumes ne: "s \<noteq> []"
  shows "\<exists>i p pre post q pre' post'.
      compute_insights s = Inr i
      \<and> s = pre @ (most_regular i, p) # post
      \<and> (\<forall>y \<in> set pre. snd y < p) \<and> (\<forall>y \<in> set post. snd y \<le> p)
      \<and> s = pre' @ (least_regular i, q) # post'
      \<and> (\<forall>y \<in> set pre'. q < snd y) \<and> (\<forall>y \<in> set post'. q \<le> snd y)"
proof -
  obtain mx p pre post where
    mx: "idxmax s = Inr mx" "s = pre @ (mx, p) # post"
      "\<forall>y \<in> set pre. snd y < p" "\<forall>y \<in> set post. snd y \<le> p"
    using idxmax_first_max[OF ne] by blast
  obtain mn q pre' post' where
    mn: "idxmin s = Inr mn" "s = pre' @ (mn, q) # post'"
      "\<forall>y \<in> set pre'. q < snd y" "\<forall>y \<in> set post'. q \<le> snd y"
    using idxmin_first_min[OF ne] by blast
  define i where "i = \<lparr>most_regular = mx, least_regular = mn, overall_attendance = series_mean s\<rparr>"
  have c: "compute_insights s = Inr i"
    unfolding i_def using mx(1) mn(1) by (rule compute_insights_Inr)
  have "most_regular i = mx" "least_regular i = mn" by (simp_all add: i_def)
  then have "compute_insights s = Inr i
      \<and> s = pre @ (most_regular i, p) # post
      \<and> (\<forall>y \<in> set pre. snd y < p) \<and> (\<forall>y \<in> set post. snd y \<le> p)
      \<and> s = pre' @ (least_regular i, q) # post'
      \<and> (\<forall>y \<in> set pre'. q < snd y) \<and> (\<forall>y \<in> set post'. q \<le> snd y)"
    using c mx(2,3,4) mn(2,3,4) by simp
  then show ?thesis by blast
qed

text \<open>
  Claim C4. For a record set that is not empty, the insights are computed; the entry of
  the most regular student carries a percentage that no entry of the summary exceeds and
  that every entry before it in the summary stays strictly below, and the entry of the
  least regular student one that no entry goes below and that every entry before it stays
  strictly above. A tie therefore goes to the first tied entry of the summary.
\<close>

theorem most_least_regular:
  assumes "rs \<noteq> []"
  shows "\<exists>i p pre post q pre' post'.
      compute_insights (attendance_summary rs) = Inr i
      \<and> attendance_summary rs = pre @ (most_regular i, p) # post
      \<and> (\<forall>y \<in> set pre. snd y < p) \<and> (\<forall>y \<in> set post. snd y \<le> p)
      \<and> attendance_summary rs = pre' @ (least_regular i, q) # post'
      \<and> (\<forall>y \<in> set pre'. q < snd y) \<and> (\<forall>y \<in> set post'. q \<le> snd y)"
  using assms by (intro insights_first_extremes summary_nonempty)

theorem most_least_regular_witness:
  "tie_rows \<noteq> []
   \<and> attendance_summary tie_rows = [(''Amy'', 100), (''Bob'', 0), (''Cal'', 0), (''Zed'', 100)]
   \<and> (\<exists>i. compute_insights (attendance_summary tie_rows) = Inr i
          \<and> most_regular i = ''Amy'' \<and> least_regular i = ''Bob'')"
proof -
  have s: "attendance_summary tie_rows = [(''Amy'', 100), (''Bob'', 0), (''Cal'', 0), (''Zed'', 100)]"
    by (simp add: tie_rows_def mk_row_def attendance_summary_def group_keys_def get_group_def
        present_share_def bool_mean_def)
  have n: "tie_rows \<noteq> []" by (simp add: tie_rows_def)
  from most_least_regular[OF n] obtain i where
    i: "compute_insights (attendance_summary tie_rows) = Inr i" by blast
  then have "most_regular i = ''Amy'' \<and> least_regular i = ''Bob''"
    by (auto simp: s compute_insights_def)
  then show ?thesis using s n i by blast
qed


lemma group_keys_mset:
  assumes "mset rs' = mset rs"
  shows "group_keys rs' = group_keys rs"
proof -
  have "set rs' = set rs" using assms by (rule mset_eq_setD)
  then have "set (map student_name rs') = set (map student_name rs)" by simp
  then have "sorted_list_of_set (set (map student_name rs')) = sorted_list_of_set (set (map student_name rs))"
    by simp
  then show ?thesis by (simp only: group_keys_def sorted_list_of_set_sort_remdups)
qed

lemma length_filter_mset:
  assumes "mset rs' = mset rs"
  shows "length (filter P rs') = length (filter P rs)"
proof -
  have "mset (filter P rs') = mset (filter P rs)" using assms by (simp only: mset_filter)
  then show ?thesis by (rule mset_eq_length)
qed

lemma attendance_summary_mset:
  assumes "mset rs' = mset rs"
  shows "attendance_summary rs' = attendance_summary rs"
proof -
  have "spec_percentage rs' = spec_percentage rs"
    by (rule ext) (simp add: spec_percentage_def length_filter_mset[OF assms])
  then show ?thesis by (simp add: summary_spec group_keys_mset[OF assms])
qed

lemma first_max_least_key:
  assumes srt: "sorted (map fst (s::series))" and sp: "s = pre @ (m, p) # post"
    and lt: "\<forall>y \<in> set pre. snd y < p"
    and mem: "(k, p') \<in> set s" and ge: "p \<le> p'"
  shows "m \<le> k"
proof -
  have "sorted (map fst pre @ m # map fst post)" using srt by (simp add: sp)
  then have post: "\<forall>y \<in> set post. m \<le> fst y" by (auto simp: sorted_append)
  from mem have "(k, p') \<in> set pre \<or> (k, p') = (m, p) \<or> (k, p') \<in> set post"
    by (auto simp: sp)
  then show ?thesis
  proof (elim disjE)
    assume "(k, p') \<in> set pre"
    then have "p' < p" using lt by auto
    then show ?thesis using ge by simp
  next
    assume "(k, p') = (m, p)" then show ?thesis by simp
  next
    assume "(k, p') \<in> set post"
    then show ?thesis using post by auto
  qed
qed

lemma first_min_least_key:
  assumes srt: "sorted (map fst (s::series))" and sp: "s = pre @ (m, p) # post"
    and lt: "\<forall>y \<in> set pre. p < snd y"
    and mem: "(k, p') \<in> set s" and ge: "p' \<le> p"
  shows "m \<le> k"
proof -
  have "sorted (map fst pre @ m # map fst post)" using srt by (simp add: sp)
  then have post: "\<forall>y \<in> set post. m \<le> fst y" by (auto simp: sorted_append)
  from mem have "(k, p') \<in> set pre \<or> (k, p') = (m, p) \<or> (k, p') \<in> set post"
    by (auto simp: sp)
  then show ?thesis
  proof (elim disjE)
    assume "(k, p') \<in> set pre"
    then have "p < p'" using lt by auto
    then show ?thesis using ge by simp
  next
    assume "(k, p') = (m, p)" then show ?thesis by simp
  next
    assume "(k, p') \<in> set post"
    then show ?thesis using post by auto
  qed
qed

text \<open>
  Claim C9. The summary lists the students in ascending order of their names, each once,
  and depends on the records only as a multiset, not on their order. For a record set
  that is not empty, the most regular student attains the maximum percentage and its name
  is less than or equal to the name of every student attaining it; likewise the least
  regular student and the minimum. A rearrangement of the records yields the same
  insights.
\<close>

theorem ties_go_to_smallest_name:
  assumes "rs \<noteq> []" and "mset rs' = mset rs"
  shows "sorted (map fst (attendance_summary rs)) \<and> distinct (map fst (attendance_summary rs))
    \<and> attendance_summary rs' = attendance_summary rs
    \<and> (\<exists>i p q. compute_insights (attendance_summary rs) = Inr i
          \<and> compute_insights (attendance_summary rs') = Inr i
          \<and> (most_regular i, p) \<in> set (attendance_summary rs)
          \<and> (\<forall>(k, p') \<in> set (attendance_summary rs). p' \<le> p \<and> (p' = p \<longrightarrow> most_regular i \<le> k))
          \<and> (least_regular i, q) \<in> set (attendance_summary rs)
          \<and> (\<forall>(k, q') \<in> set (attendance_summary rs). q \<le> q' \<and> (q' = q \<longrightarrow> least_regular i \<le> k)))"
proof -
  let ?s = "attendance_summary rs"
  have srt: "sorted (map fst ?s)" by (simp only: map_fst_summary sorted_group_keys)
  have dst: "distinct (map fst ?s)" by (simp only: map_fst_summary distinct_group_keys)
  have eq: "attendance_summary rs' = ?s" using assms(2) by (rule attendance_summary_mset)
  obtain i p pre post q pre' post' where
    c: "compute_insights ?s = Inr i"
    and mx: "?s = pre @ (most_regular i, p) # post"
      "\<forall>y \<in> set pre. snd y < p" "\<forall>y \<in> set post. snd y \<le> p"
    and mn: "?s = pre' @ (least_regular i, q) # post'"
      "\<forall>y \<in> set pre'. q < snd y" "\<forall>y \<in> set post'. q \<le> snd y"
    using insights_first_extremes[OF summary_nonempty[OF assms(1)]] by blast
  have in_mx: "(most_regular i, p) \<in> set ?s" by (subst mx(1)) simp
  have in_mn: "(least_regular i, q) \<in> set ?s" by (subst mn(1)) simp
  have le_mx: "p' \<le> p" if "(k, p') \<in> set ?s" for k p'
  proof -
    from that have "(k, p') \<in> set pre \<or> (k, p') = (most_regular i, p) \<or> (k, p') \<in> set post"
      by (subst (asm) mx(1)) auto
    then show ?thesis using mx(2,3) by force
  qed
  have ge_mn: "q \<le> q'" if "(k, q') \<in> set ?s" for k q'
  proof -
    from that have "(k, q') \<in> set pre' \<or> (k, q') = (least_regular i, q) \<or> (k, q') \<in> set post'"
      by (subst (asm) mn(1)) auto
    then show ?thesis using mn(2,3) by force
  qed
  have key_mx: "most_regular i \<le> k" if "(k, p) \<in> set ?s" for k
    using first_max_least_key[OF srt mx(1) mx(2) that] by simp
  have key_mn: "least_regular i \<le> k" if "(k, q) \<in> set ?s" for k
    using first_min_least_key[OF srt mn(1) mn(2) that] by simp
  have a: "\<forall>(k, p') \<in> set ?s. p' \<le> p \<and> (p' = p \<longrightarrow> most_regular i \<le> k)"
    using le_mx key_mx by blast
  have b: "\<forall>(k, q') \<in> set ?s. q \<le> q' \<and> (q' = q \<longrightarrow> least_regular i \<le> k)"
    using ge_mn key_mn by blast
  have "compute_insights ?s = Inr i \<and> compute_insights (attendance_summary rs') = Inr i
          \<and> (most_regular i, p) \<in> set ?s
          \<and> (\<forall>(k, p') \<in> set ?s. p' \<le> p \<and> (p' = p \<longrightarrow> most_regular i \<le> k))
          \<and> (least_regular i, q) \<in> set ?s
          \<and> (\<forall>(k, q') \<in> set ?s. q \<le> q' \<and> (q' = q \<longrightarrow> least_regular i \<le> k))"
    using c eq in_mx in_mn a b by simp
  then show ?thesis using srt dst eq by blast
qed

theorem ties_go_to_smallest_name_witness:
  "tie_rows \<noteq> [] \<and> mset (rev tie_rows) = mset tie_rows
   \<and> map student_name tie_rows = [''Zed'', ''Cal'', ''Bob'', ''Amy'']
   \<and> attendance_summary (rev tie_rows) = [(''Amy'', 100), (''Bob'', 0), (''Cal'', 0), (''Zed'', 100)]
   \<and> (\<exists>i. compute_insights (attendance_summary tie_rows) = Inr i
          \<and> compute_insights (attendance_summary (rev tie_rows)) = Inr i
          \<and> most_regular i = ''Amy'' \<and> least_regular i = ''Bob'')"
proof -
  have s: "attendance_summary tie_rows = [(''Amy'', 100), (''Bob'', 0), (''Cal'', 0), (''Zed'', 100)]"
    by (simp add: tie_rows_def mk_row_def attendance_summary_def group_keys_def get_group_def
        present_share_def bool_mean_def)
  have n: "tie_rows \<noteq> []" by (simp add: tie_rows_def)
  have m: "mset (rev tie_rows) = mset tie_rows" by simp
  have o: "map student_name tie_rows = [''Zed'', ''Cal'', ''Bob'', ''Amy'']"
    by (simp add: tie_rows_def mk_row_def)
  from ties_go_to_smallest_name[OF n m] obtain i where
    e: "attendance_summary (rev tie_rows) = attendance_summary tie_rows"
    and i: "compute_insights (attendance_summary tie_rows) = Inr i"
      "compute_insights (attendance_summary (rev tie_rows)) = Inr i" by blast
  have "most_regular i = ''Amy'' \<and> least_regular i = ''Bob''"
    using i(1) by (auto simp: s compute_insights_def)
  then show ?thesis using s n m o e i by auto
qed

section \<open>Properties of the date filter\<close>

lemma those_eq_Some: "those os = Some ys \<longleftrightarrow> os = map Some ys"
proof (induction os arbitrary: ys)
  case Nil
  show ?case by (cases ys) simp_all
next
  case (Cons x os)
  note IH = Cons.IH
  show ?case
  proof (cases x)
    case None
    then show ?thesis by (cases ys) simp_all
  next
    case (Some v)
    show ?thesis
    proof (cases ys)
      case Nil
      then show ?thesis by (simp add: Some)
    next
      case (Cons y ys')
      have "those (Some v # os) = Some (y # ys') \<longleftrightarrow> v = y \<and> those os = Some ys'"
        by (cases "those os") auto
      then show ?thesis using IH[of ys'] by (simp add: Some Cons)
    qed
  qed
qed

lemma to_datetime_Inr:
  "to_datetime parse cs = Inr ts \<longleftrightarrow> map (cell_to_datetime parse) cs = map Some ts"
proof (cases "those (map (cell_to_datetime parse) cs)")
  case None
  then have "map (cell_to_datetime parse) cs \<noteq> map Some ts"
    using those_eq_Some[of "map (cell_to_datetime parse) cs" ts] by simp
  then show ?thesis using None by (simp add: to_datetime_def)
next
  case (Some us)
  then have "map (cell_to_datetime parse) cs = map Some ts \<longleftrightarrow> us = ts"
    using those_eq_Some[of "map (cell_to_datetime parse) cs" ts] by simp
  then show ?thesis using Some by (simp add: to_datetime_def)
qed

lemma to_datetime_total:
  assumes "list_all (\<lambda>r. cell_to_datetime parse (date r) \<noteq> None) rs"
  shows "\<exists>ts. to_datetime parse (map date rs) = Inr ts"
  using assms
proof (induction rs)
  case Nil
  show ?case by (simp add: to_datetime_Inr)
next
  case (Cons r rs)
  then obtain ts where "map (cell_to_datetime parse) (map date rs) = map Some ts"
    by (auto simp: to_datetime_Inr)
  moreover obtain t where "cell_to_datetime parse (date r) = Some t" using Cons.prems by auto
  ultimately have "map (cell_to_datetime parse) (map date (r # rs)) = map Some (t # ts)" by simp
  then show ?case unfolding to_datetime_Inr by blast
qed

lemma set_date_column_parsed:
  assumes "map (cell_to_datetime parse) (map date rs) = map Some ts"
  shows "list_all2 (parsed_from parse) rs (set_date_column rs ts)"
  using assms
proof (induction rs arbitrary: ts)
  case Nil
  then show ?case by (simp add: set_date_column_def)
next
  case (Cons r rs)
  then obtain t ts' where ts: "ts = t # ts'" by (cases ts) auto
  then have "cell_to_datetime parse (date r) = Some t"
    and "map (cell_to_datetime parse) (map date rs) = map Some ts'"
    using Cons.prems by simp_all
  then show ?case using Cons.IH[of ts'] by (simp add: ts set_date_column_def parsed_from_def)
qed

lemma select_rows_filter:
  "select_rows (set_date_column rs ts) (range_mask ts s e) =
     filter (dated_within s e) (set_date_column rs ts)"
proof (induction rs arbitrary: ts)
  case Nil
  show ?case by (simp add: select_rows_def set_date_column_def)
next
  case (Cons r rs)
  show ?case
  proof (cases ts)
    case Nil
    then show ?thesis by (simp add: select_rows_def set_date_column_def range_mask_def)
  next
    case (Cons t ts')
    then show ?thesis using Cons.IH[of ts']
      by (simp add: select_rows_def set_date_column_def range_mask_def dated_within_def)
  qed
qed

lemma set_date_column_stamped:
  "r \<in> set (set_date_column rs ts) \<Longrightarrow> \<exists>t. date r = Stamp t"
proof (induction rs arbitrary: ts)
  case Nil
  then show ?case by (simp add: set_date_column_def)
next
  case (Cons x rs)
  show ?case
  proof (cases ts)
    case Nil
    then show ?thesis using Cons.prems by (simp add: set_date_column_def)
  next
    case (Cons t ts')
    then have "r = x\<lparr>date := Stamp t\<rparr> \<or> r \<in> set (set_date_column rs ts')"
      using Cons.prems by (simp add: set_date_column_def)
    then show ?thesis using Cons.IH[of ts'] by auto
  qed
qed

lemma stamped_fixpoint:
  assumes "\<forall>r \<in> set rs. \<exists>t. date r = Stamp t"
  shows "\<exists>ts. to_datetime parse (map date rs) = Inr ts \<and> set_date_column rs ts = rs"
  using assms
proof (induction rs)
  case Nil
  show ?case by (simp add: to_datetime_Inr set_date_column_def)
next
  case (Cons r rs)
  then obtain ts where ts: "map (cell_to_datetime parse) (map date rs) = map Some ts"
    "set_date_column rs ts = rs" by (auto simp: to_datetime_Inr)
  obtain t where t: "date r = Stamp t" using Cons.prems by auto
  have "map (cell_to_datetime parse) (map date (r # rs)) = map Some (t # ts)"
    using ts(1) t by simp
  moreover have "set_date_column (r # rs) (t # ts) = r # rs"
    using ts(2) t by (simp add: set_date_column_def)
  ultimately show ?case unfolding to_datetime_Inr by blast
qed

lemma filter_by_range_Inr:
  assumes "''Date'' \<in> set (columns d)" and "to_datetime parse (map date (rows d)) = Inr ts"
  shows "filter_by_range parse d s e =
     Inr (d\<lparr>rows := set_date_column (rows d) ts\<rparr>,
          d\<lparr>rows := filter (dated_within s e) (set_date_column (rows d) ts)\<rparr>)"
  using assms by (simp add: filter_by_range_def select_rows_filter)

lemma filter_by_range_well_dated:
  assumes "well_dated parse d"
  shows "\<exists>stored. filter_by_range parse d s e =
           Inr (stored, stored\<lparr>rows := filter (dated_within s e) (rows stored)\<rparr>)
         \<and> columns stored = columns d
         \<and> list_all2 (parsed_from parse) (rows d) (rows stored)
         \<and> (\<forall>r \<in> set (rows stored). \<exists>t. date r = Stamp t)"
proof -
  from assms have c: "''Date'' \<in> set (columns d)" by (simp add: well_dated_def)
  from assms obtain ts where ts: "to_datetime parse (map date (rows d)) = Inr ts"
    using to_datetime_total[of parse "rows d"] by (auto simp: well_dated_def)
  define stored where "stored = d\<lparr>rows := set_date_column (rows d) ts\<rparr>"
  have "filter_by_range parse d s e =
           Inr (stored, stored\<lparr>rows := filter (dated_within s e) (rows stored)\<rparr>)"
    using filter_by_range_Inr[OF c ts] by (simp add: stored_def)
  moreover have "columns stored = columns d" by (simp add: stored_def)
  moreover have "list_all2 (parsed_from parse) (rows d) (rows stored)"
    using ts by (simp add: stored_def set_date_column_parsed to_datetime_Inr)
  moreover have "\<forall>r \<in> set (rows stored). \<exists>t. date r = Stamp t"
    using set_date_column_stamped by (auto simp: stored_def)
  ultimately show ?thesis by blast
qed

lemma dated_within_single: "dated_within s s = (\<lambda>r. date r = Stamp s)"
  by (rule ext) (auto simp: dated_within_def split: date_cell.splits)

lemma stamped_well_dated:
  assumes "''Date'' \<in> set (columns d)" and "\<forall>r \<in> set (rows d). \<exists>t. date r = Stamp t"
  shows "filter_by_range parse d s e = Inr (d, d\<lparr>rows := filter (dated_within s e) (rows d)\<rparr>)"
proof -
  obtain ts where ts: "to_datetime parse (map date (rows d)) = Inr ts"
    "set_date_column (rows d) ts = rows d"
    using stamped_fixpoint[OF assms(2)] by blast
  show ?thesis using filter_by_range_Inr[OF assms(1) ts(1)] by (simp add: ts(2))
qed

lemma sample_frame_well_dated: "well_dated sample_parse sample_frame"
  by (simp add: well_dated_def sample_frame_def sample_rows_def mk_row_def sample_parse_def)

lemmas sample_simps = sample_app_def sample_frame_def sample_rows_def mk_row_def sample_parse_def

lemma sample_filter_single:
  "filter_by_range sample_parse sample_frame 1704067200000000000 1704067200000000000 =
     Inr (\<lparr>columns = [''Student Name'', ''Date'', ''Status''],
           rows = [\<lparr>student_name = ''Alice'', date = Stamp 1704067200000000000, status = ''Present'', extra = []\<rparr>,
                   \<lparr>student_name = ''Alice'', date = Stamp 1704153600000000000, status = ''Absent'', extra = []\<rparr>,
                   \<lparr>student_name = ''Bob'', date = Stamp 1704067200000000000, status = ''Present'', extra = []\<rparr>,
                   \<lparr>student_name = ''Bob'', date = Stamp 1704153600000000000, status = ''Present'', extra = []\<rparr>]\<rparr>,
          \<lparr>columns = [''Student Name'', ''Date'', ''Status''],
           rows = [\<lparr>student_name = ''Alice'', date = Stamp 1704067200000000000, status = ''Present'', extra = []\<rparr>,
                   \<lparr>student_name = ''Bob'', date = Stamp 1704067200000000000, status = ''Present'', extra = []\<rparr>]\<rparr>)"
  by (simp add: filter_by_range_def to_datetime_def set_date_column_def select_rows_def
      range_mask_def sample_simps)

text \<open>
  Claim C3. On a frame whose records carry dates, the filter of lines 108 and 109
  returns; the frame it stores holds the same records with their dates parsed; the rows
  it selects are exactly the stored records whose time stamp lies between the start and
  the end, both included, in their stored order; and when start and end are the same
  instant, they are exactly the records stamped with that instant.
\<close>

theorem filter_by_range_inclusive:
  assumes "well_dated parse d"
  shows "\<exists>stored f. filter_by_range parse d s e = Inr (stored, f)
      \<and> list_all2 (parsed_from parse) (rows d) (rows stored)
      \<and> rows f = filter (dated_within s e) (rows stored)
      \<and> subseq (rows f) (rows stored)
      \<and> (s = e \<longrightarrow> rows f = filter (\<lambda>r. date r = Stamp s) (rows stored))"
proof -
  obtain stored where st:
    "filter_by_range parse d s e = Inr (stored, stored\<lparr>rows := filter (dated_within s e) (rows stored)\<rparr>)"
    "list_all2 (parsed_from parse) (rows d) (rows stored)"
    using filter_by_range_well_dated[OF assms] by blast
  define f where "f = stored\<lparr>rows := filter (dated_within s e) (rows stored)\<rparr>"
  have r: "rows f = filter (dated_within s e) (rows stored)" by (simp add: f_def)
  have sub: "subseq (rows f) (rows stored)" unfolding r by (rule subseq_filter_left)
  have single: "s = e \<longrightarrow> rows f = filter (\<lambda>r. date r = Stamp s) (rows stored)"
    unfolding r by (simp add: dated_within_single)
  have "filter_by_range parse d s e = Inr (stored, f)" using st(1) by (simp add: f_def)
  then show ?thesis using st(2) r sub single by blast
qed

theorem filter_by_range_inclusive_witness:
  "well_dated sample_parse sample_frame
   \<and> (\<exists>stored f. filter_by_range sample_parse sample_frame 1704067200000000000 1704067200000000000
          = Inr (stored, f)
        \<and> map student_name (rows f) = [''Alice'', ''Bob'']
        \<and> rows f = filter (\<lambda>r. date r = Stamp 1704067200000000000) (rows stored))"
proof -
  from filter_by_range_inclusive[OF sample_frame_well_dated,
      of 1704067200000000000 1704067200000000000]
  obtain stored f where
    f: "filter_by_range sample_parse sample_frame 1704067200000000000 1704067200000000000
          = Inr (stored, f)"
    and r: "rows f = filter (\<lambda>r. date r = Stamp 1704067200000000000) (rows stored)"
    by blast
  have n: "map student_name (rows f) = [''Alice'', ''Bob'']"
    using f by (auto simp: sample_filter_single)
  show ?thesis
  proof (intro conjI exI)
    show "well_dated sample_parse sample_frame" by (rule sample_frame_well_dated)
    show "filter_by_range sample_parse sample_frame 1704067200000000000 1704067200000000000
          = Inr (stored, f)" by (rule f)
    show "map student_name (rows f) = [''Alice'', ''Bob'']" by (rule n)
  qed (rule r)
qed

text \<open>
  Claim C8. Filtering the result of the filter again with the same range returns that
  result unchanged, as the stored and as the selected frame.
\<close>

theorem filter_by_range_idempotent:
  assumes "well_dated parse d"
  shows "\<exists>stored f. filter_by_range parse d s e = Inr (stored, f)
      \<and> filter_by_range parse f s e = Inr (f, f)"
proof -
  obtain stored where st:
    "filter_by_range parse d s e = Inr (stored, stored\<lparr>rows := filter (dated_within s e) (rows stored)\<rparr>)"
    "columns stored = columns d"
    "\<forall>r \<in> set (rows stored). \<exists>t. date r = Stamp t"
    using filter_by_range_well_dated[OF assms] by blast
  define f where "f = stored\<lparr>rows := filter (dated_within s e) (rows stored)\<rparr>"
  have c: "''Date'' \<in> set (columns f)" using assms st(2) by (simp add: f_def well_dated_def)
  have a: "\<forall>r \<in> set (rows f). \<exists>t. date r = Stamp t" using st(3) by (simp add: f_def)
  have "filter_by_range parse f s e = Inr (f, f\<lparr>rows := filter (dated_within s e) (rows f)\<rparr>)"
    using c a by (rule stamped_well_dated)
  moreover have "f\<lparr>rows := filter (dated_within s e) (rows f)\<rparr> = f" by (simp add: f_def)
  ultimately have "filter_by_range parse f s e = Inr (f, f)" by simp
  moreover have "filter_by_range parse d s e = Inr (stored, f)" using st(1) by (simp add: f_def)
  ultimately show ?thesis by blast
qed

theorem filter_by_range_idempotent_witness:
  "well_dated sample_parse sample_frame
   \<and> (\<exists>stored f. filter_by_range sample_parse sample_frame 1704067200000000000 1704067200000000000
          = Inr (stored, f)
        \<and> map student_name (rows f) = [''Alice'', ''Bob'']
        \<and> filter_by_range sample_parse f 1704067200000000000 1704067200000000000 = Inr (f, f))"
proof -
  from filter_by_range_idempotent[OF sample_frame_well_dated,
      of 1704067200000000000 1704067200000000000]
  obtain stored f where
    f: "filter_by_range sample_parse sample_frame 1704067200000000000 1704067200000000000
          = Inr (stored, f)"
    and r: "filter_by_range sample_parse f 1704067200000000000 1704067200000000000 = Inr (f, f)"
    by blast
  have n: "map student_name (rows f) = [''Alice'', ''Bob'']"
    using f by (auto simp: sample_filter_single)
  show ?thesis
  proof (intro conjI exI)
    show "well_dated sample_parse sample_frame" by (rule sample_frame_well_dated)
    show "filter_by_range sample_parse sample_frame 1704067200000000000 1704067200000000000
          = Inr (stored, f)" by (rule f)
    show "map student_name (rows f) = [''Alice'', ''Bob'']" by (rule n)
  qed (rule r)
qed

section \<open>Properties of the application\<close>

text \<open>
  Claim C5. On a frame with the required columns and no rows, as a CSV file with only a
  header line gives, the summary is empty and \<open>idxmax\<close> raises the \<open>ValueError\<close> of an
  empty sequence: the analysis shows the empty summary and then the error, and no
  insights. The upload itself succeeds: the file is announced as loaded and stored.
\<close>

theorem empty_dataset_fails:
  assumes "set required_columns \<subseteq> set (columns d)" and "rows d = []"
  shows "compute_insights (attendance_summary (rows d)) =
           Inl (ValueError ''attempt to get argmax of an empty sequence'')
       \<and> analyze_attendance d =
           [ShowInfo (AttendanceSummary []),
            ShowError FailedToAnalyze (ValueError ''attempt to get argmax of an empty sequence'')]
       \<and> load_and_analyze (Some (Inr d)) a =
           ([ShowInfo FileLoaded, ShowInfo (AttendanceSummary []),
             ShowError FailedToAnalyze (ValueError ''attempt to get argmax of an empty sequence'')],
            a\<lparr>df := Some d\<rparr>)"
proof -
  have s: "attendance_summary (rows d) = []"
    using assms(2) by (simp add: attendance_summary_def group_keys_def)
  have c: "compute_insights [] = Inl (ValueError ''attempt to get argmax of an empty sequence'')"
    by (simp add: compute_insights_def)
  have an: "analyze_attendance d =
           [ShowInfo (AttendanceSummary []),
            ShowError FailedToAnalyze (ValueError ''attempt to get argmax of an empty sequence'')]"
    using assms(1) by (simp add: analyze_attendance_def s c)
  show ?thesis using s c an by (simp add: load_and_analyze_def)
qed

theorem empty_dataset_fails_witness:
  "set required_columns \<subseteq> set (columns header_only_frame) \<and> rows header_only_frame = []
   \<and> load_and_analyze (Some (Inr header_only_frame)) sample_app =
       ([ShowInfo FileLoaded, ShowInfo (AttendanceSummary []),
         ShowError FailedToAnalyze (ValueError ''attempt to get argmax of an empty sequence'')],
        sample_app\<lparr>df := Some header_only_frame\<rparr>)"
proof -
  have h: "set required_columns \<subseteq> set (columns header_only_frame)" "rows header_only_frame = []"
    by (simp_all add: header_only_frame_def required_columns_def)
  from empty_dataset_fails[OF h, of sample_app] h show ?thesis by simp
qed

text \<open>
  Claim C6, as the program has it. An upload that lacks one of the required columns is
  announced as loaded, the analysis reports the \<open>ValueError\<close> of line 62 and shows nothing
  else, and the upload has replaced the frame stored before. A file that cannot be read
  is reported and leaves the stored frame as it was.
\<close>

theorem missing_column_upload:
  assumes "\<not> set required_columns \<subseteq> set (columns d)"
  shows "load_and_analyze (Some (Inr d)) a =
     ([ShowInfo FileLoaded,
       ShowError FailedToAnalyze
         (ValueError ''CSV must contain 'Student Name', 'Date', and 'Status' columns.'')],
      a\<lparr>df := Some d\<rparr>)
     \<and> load_and_analyze (Some (Inl e)) a = ([ShowError FailedToLoad e], a)"
  using assms by (simp add: load_and_analyze_def analyze_attendance_def)

theorem missing_column_upload_witness:
  "\<not> set required_columns \<subseteq> set (columns no_status_frame)
   \<and> load_and_analyze (Some (Inr no_status_frame)) sample_app =
     ([ShowInfo FileLoaded,
       ShowError FailedToAnalyze
         (ValueError ''CSV must contain 'Student Name', 'Date', and 'Status' columns.'')],
      sample_app\<lparr>df := Some no_status_frame\<rparr>)"
proof -
  have h: "\<not> set required_columns \<subseteq> set (columns no_status_frame)"
    by (simp add: no_status_frame_def required_columns_def)
  from missing_column_upload[OF h, of sample_app] h show ?thesis by simp
qed

text \<open>
  Claim C6 fails as stated: after the upload of a frame without a \<open>Status\<close> column, the
  stored frame is that upload and no longer the sample frame stored before.
\<close>

theorem invalid_upload_replaces_dataset:
  "columns no_status_frame = [''Student Name'', ''Date'']
   \<and> df sample_app = Some sample_frame
   \<and> df (snd (load_and_analyze (Some (Inr no_status_frame)) sample_app)) = Some no_status_frame
   \<and> df (snd (load_and_analyze (Some (Inr no_status_frame)) sample_app)) \<noteq> df sample_app"
  by (simp add: load_and_analyze_def no_status_frame_def sample_app_def sample_frame_def)

lemma parsed_all:
  "map (cell_to_datetime parse) (map date rs) = map Some ts
   \<Longrightarrow> list_all (\<lambda>r. cell_to_datetime parse (date r) \<noteq> None) rs"
proof (induction rs arbitrary: ts)
  case Nil
  show ?case by simp
next
  case (Cons r rs)
  then obtain t ts' where "ts = t # ts'" by (cases ts) auto
  then show ?case using Cons.prems Cons.IH[of ts'] by auto
qed

lemma filter_by_range_InrD:
  assumes "filter_by_range parse d s e = Inr (stored, f)"
  shows "well_dated parse d \<and> columns stored = columns d
     \<and> list_all2 (parsed_from parse) (rows d) (rows stored)"
proof -
  have c: "''Date'' \<in> set (columns d)"
    using assms by (auto simp: filter_by_range_def split: if_splits)
  then obtain ts where ts: "to_datetime parse (map date (rows d)) = Inr ts"
    and st: "stored = d\<lparr>rows := set_date_column (rows d) ts\<rparr>"
    using assms by (auto simp: filter_by_range_def Let_def split: sum.splits)
  have m: "map (cell_to_datetime parse) (map date (rows d)) = map Some ts"
    using ts by (simp only: to_datetime_Inr)
  have "well_dated parse d" using c parsed_all[OF m] by (simp add: well_dated_def)
  moreover have "columns stored = columns d" by (simp add: st)
  moreover have "list_all2 (parsed_from parse) (rows d) (rows stored)"
    using set_date_column_parsed[OF m] by (simp add: st)
  ultimately show ?thesis by blast
qed

lemma parsed_from_same:
  "list_all2 (parsed_from parse) rs rs \<longleftrightarrow> (\<forall>r \<in> set rs. \<exists>t. date r = Stamp t)"
proof (induction rs)
  case Nil
  show ?case by simp
next
  case (Cons r rs)
  have "parsed_from parse r r \<longleftrightarrow> (\<exists>t. date r = Stamp t)"
  proof
    assume "parsed_from parse r r"
    then obtain t where "r = r\<lparr>date := Stamp t\<rparr>"
      by (auto simp: parsed_from_def split: option.splits)
    then have "date r = date (r\<lparr>date := Stamp t\<rparr>)" by simp
    then show "\<exists>t. date r = Stamp t" by simp
  next
    assume "\<exists>t. date r = Stamp t"
    then show "parsed_from parse r r" by (auto simp: parsed_from_def)
  qed
  then show ?case using Cons.IH by simp
qed

lemma parsed_from_unique:
  "list_all2 (parsed_from parse) xs ys \<Longrightarrow> list_all2 (parsed_from parse) xs zs \<Longrightarrow> ys = zs"
proof (induction xs arbitrary: ys zs)
  case Nil
  then show ?case by simp
next
  case (Cons x xs)
  from Cons.prems(1) obtain y ys' where y: "ys = y # ys'" "parsed_from parse x y"
    "list_all2 (parsed_from parse) xs ys'" by (auto simp: list_all2_Cons1)
  from Cons.prems(2) obtain z zs' where z: "zs = z # zs'" "parsed_from parse x z"
    "list_all2 (parsed_from parse) xs zs'" by (auto simp: list_all2_Cons1)
  have "y = z" using y(2) z(2) by (auto simp: parsed_from_def split: option.splits)
  moreover have "ys' = zs'" using y(3) z(3) by (rule Cons.IH)
  ultimately show ?case by (simp add: y(1) z(1))
qed

lemma analyze_with_date_filter_not_reached:
  assumes "\<not> filter_reached strptime parse a"
  shows "snd (analyze_with_date_filter strptime parse a) = a"
proof -
  have "\<And>d s e stored f. df a = Some d \<Longrightarrow> filter_by_range parse d s e = Inr (stored, f)
      \<Longrightarrow> well_dated parse d"
    using filter_by_range_InrD by blast
  then show ?thesis using assms
    by (auto simp: analyze_with_date_filter_def filter_reached_def
        split: option.splits sum.splits prod.splits)
qed

lemma analyze_with_date_filter_reached:
  assumes "filter_reached strptime parse a"
  shows "\<exists>d stored. df a = Some d
      \<and> snd (analyze_with_date_filter strptime parse a) = a\<lparr>df := Some stored\<rparr>
      \<and> columns stored = columns d
      \<and> list_all2 (parsed_from parse) (rows d) (rows stored)"
proof -
  from assms obtain s e d where
    ne: "start_date_entry a \<noteq> []" "end_date_entry a \<noteq> []"
    and p: "strptime (start_date_entry a) = Some s" "strptime (end_date_entry a) = Some e"
    and d: "df a = Some d" and w: "well_dated parse d"
    by (auto simp: filter_reached_def split: option.splits)
  obtain stored where st:
    "filter_by_range parse d s e =
       Inr (stored, stored\<lparr>rows := filter (dated_within s e) (rows stored)\<rparr>)"
    "columns stored = columns d"
    "list_all2 (parsed_from parse) (rows d) (rows stored)"
    using filter_by_range_well_dated[OF w] by blast
  have "snd (analyze_with_date_filter strptime parse a) = a\<lparr>df := Some stored\<rparr>"
    using ne p d st(1) by (simp add: analyze_with_date_filter_def)
  then show ?thesis using d st(2,3) by blast
qed

text \<open>
  Claim C7, as the program has it. \<open>analyze_attendance\<close> has no access to the store. The
  date-filtered analysis changes nothing but the stored frame, and that only when it
  reaches line 108: then the stored frame is replaced by a frame with the same columns
  and the same records in the same order, each with its \<open>Date\<close> cell overwritten by the
  time stamp it parses to, name, status and further cells kept; the new frame equals the
  old one only when every \<open>Date\<close> cell was a time stamp already. When line 108 is not
  reached (an entry empty or not a date, no frame stored, no \<open>Date\<close> column, or a cell
  that is not a date), the whole state is left as it was.
\<close>

theorem date_filter_store_effect:
  "(filter_reached strptime parse a \<longrightarrow>
      (\<exists>d stored. df a = Some d
         \<and> snd (analyze_with_date_filter strptime parse a) = a\<lparr>df := Some stored\<rparr>
         \<and> columns stored = columns d
         \<and> list_all2 (parsed_from parse) (rows d) (rows stored)
         \<and> (stored = d \<longleftrightarrow> (\<forall>r \<in> set (rows d). \<exists>t. date r = Stamp t))))
   \<and> (\<not> filter_reached strptime parse a \<longrightarrow>
        snd (analyze_with_date_filter strptime parse a) = a)"
proof (intro conjI impI)
  assume "filter_reached strptime parse a"
  then obtain d stored where r: "df a = Some d"
    "snd (analyze_with_date_filter strptime parse a) = a\<lparr>df := Some stored\<rparr>"
    "columns stored = columns d"
    "list_all2 (parsed_from parse) (rows d) (rows stored)"
    using analyze_with_date_filter_reached by blast
  have "stored = d \<longleftrightarrow> rows stored = rows d" using r(3) by (cases stored, cases d) simp
  also have "\<dots> \<longleftrightarrow> list_all2 (parsed_from parse) (rows d) (rows d)"
  proof
    assume "rows stored = rows d" then show "list_all2 (parsed_from parse) (rows d) (rows d)"
      using r(4) by simp
  next
    assume same: "list_all2 (parsed_from parse) (rows d) (rows d)"
    show "rows stored = rows d" using r(4) same by (rule parsed_from_unique)
  qed
  finally have "stored = d \<longleftrightarrow> (\<forall>r \<in> set (rows d). \<exists>t. date r = Stamp t)"
    by (simp only: parsed_from_same)
  then show "\<exists>d stored. df a = Some d
         \<and> snd (analyze_with_date_filter strptime parse a) = a\<lparr>df := Some stored\<rparr>
         \<and> columns stored = columns d
         \<and> list_all2 (parsed_from parse) (rows d) (rows stored)
         \<and> (stored = d \<longleftrightarrow> (\<forall>r \<in> set (rows d). \<exists>t. date r = Stamp t))"
    using r by blast
next
  assume "\<not> filter_reached strptime parse a"
  then show "snd (analyze_with_date_filter strptime parse a) = a"
    by (rule analyze_with_date_filter_not_reached)
qed

lemma sample_app_run:
  "analyze_with_date_filter sample_parse sample_parse sample_app =
     ([ShowInfo (AttendanceSummary [(''Alice'', 100), (''Bob'', 100)]),
       ShowInfo (AttendanceInsights
         \<lparr>most_regular = ''Alice'', least_regular = ''Alice'', overall_attendance = 100\<rparr>)],
      sample_app\<lparr>df := Some
        \<lparr>columns = [''Student Name'', ''Date'', ''Status''],
           rows = [\<lparr>student_name = ''Alice'', date = Stamp 1704067200000000000, status = ''Present'', extra = []\<rparr>,
                   \<lparr>student_name = ''Alice'', date = Stamp 1704153600000000000, status = ''Absent'', extra = []\<rparr>,
                   \<lparr>student_name = ''Bob'', date = Stamp 1704067200000000000, status = ''Present'', extra = []\<rparr>,
                   \<lparr>student_name = ''Bob'', date = Stamp 1704153600000000000, status = ''Present'', extra = []\<rparr>]\<rparr>\<rparr>)"
proof -
  have e: "start_date_entry sample_app = ''2024-01-01''" "end_date_entry sample_app = ''2024-01-01''"
    "df sample_app = Some sample_frame"
    by (simp_all add: sample_app_def)
  have p: "sample_parse ''2024-01-01'' = Some 1704067200000000000" by (simp add: sample_parse_def)
  show ?thesis
    unfolding analyze_with_date_filter_def e p
    by (simp add: sample_filter_single analyze_attendance_def required_columns_def
        attendance_summary_def group_keys_def get_group_def present_share_def bool_mean_def
        compute_insights_def series_mean_def)
qed

text \<open>
  Claim C7 fails as stated: on the sample frame the analysis of the first of January
  turns the four \<open>Date\<close> cells of the stored frame from text into time stamps.
\<close>

theorem date_filter_rewrites_stored_dates:
  "map_option (\<lambda>d. map date (rows d)) (df sample_app) =
     Some [Raw ''2024-01-01'', Raw ''2024-01-02'', Raw ''2024-01-01'', Raw ''2024-01-02'']
   \<and> map_option (\<lambda>d. map date (rows d))
        (df (snd (analyze_with_date_filter sample_parse sample_parse sample_app))) =
     Some [Stamp 1704067200000000000, Stamp 1704153600000000000,
           Stamp 1704067200000000000, Stamp 1704153600000000000]
   \<and> df (snd (analyze_with_date_filter sample_parse sample_parse sample_app)) \<noteq> df sample_app"
  unfolding sample_app_run by (simp add: sample_simps)

theorem date_filter_store_effect_witness:
  "filter_reached sample_parse sample_parse sample_app
   \<and> (\<exists>stored. snd (analyze_with_date_filter sample_parse sample_parse sample_app)
                   = sample_app\<lparr>df := Some stored\<rparr>
          \<and> list_all2 (parsed_from sample_parse) (rows sample_frame) (rows stored)
          \<and> stored \<noteq> sample_frame)
   \<and> \<not> filter_reached sample_parse sample_parse bad_entry_app
   \<and> snd (analyze_with_date_filter sample_parse sample_parse bad_entry_app) = bad_entry_app"
proof -
  have reached: "filter_reached sample_parse sample_parse sample_app"
    using sample_frame_well_dated
    by (simp add: filter_reached_def sample_app_def sample_parse_def)
  have d: "df sample_app = Some sample_frame" by (simp add: sample_app_def)
  have raw: "\<not> (\<forall>r \<in> set (rows sample_frame). \<exists>t. date r = Stamp t)"
    by (simp add: sample_frame_def sample_rows_def mk_row_def)
  from date_filter_store_effect[of sample_parse sample_parse sample_app] reached d
  obtain stored where st:
    "snd (analyze_with_date_filter sample_parse sample_parse sample_app)
       = sample_app\<lparr>df := Some stored\<rparr>"
    "list_all2 (parsed_from sample_parse) (rows sample_frame) (rows stored)"
    "stored = sample_frame \<longleftrightarrow> (\<forall>r \<in> set (rows sample_frame). \<exists>t. date r = Stamp t)"
    by auto
  have ne: "stored \<noteq> sample_frame" using st(3) raw by simp
  have unreached: "\<not> filter_reached sample_parse sample_parse bad_entry_app"
    by (simp add: filter_reached_def bad_entry_app_def sample_parse_def)
  have same: "snd (analyze_with_date_filter sample_parse sample_parse bad_entry_app) = bad_entry_app"
    using date_filter_store_effect[of sample_parse sample_parse bad_entry_app] unreached by simp
  show ?thesis using reached st(1,2) ne unreached same by blast
qed


lemma analyze_attendance_not_no_data: "analyze_attendance g \<noteq> [ShowInfo NoData]"
  by (simp add: analyze_attendance_def Let_def)

lemma filter_by_range_reversed:
  assumes "well_dated parse d" and "e < s"
  shows "\<exists>stored. filter_by_range parse d s e = Inr (stored, stored\<lparr>rows := []\<rparr>)"
proof -
  obtain stored where
    "filter_by_range parse d s e = Inr (stored, stored\<lparr>rows := filter (dated_within s e) (rows stored)\<rparr>)"
    using filter_by_range_well_dated[OF assms(1)] by blast
  moreover have "dated_within s e = (\<lambda>r. False)"
    using assms(2) by (auto simp: dated_within_def fun_eq_iff split: date_cell.splits)
  ultimately show ?thesis by simp
qed

text \<open>
  Claim C10. With a frame loaded whose records carry dates, and two entries that are
  well-formed dates with the start strictly after the end, the filter selects no row,
  and the operation shows the message that no records were found and nothing else;
  \<open>analyze_attendance\<close> is not run, for it never shows that message alone.
\<close>

theorem reversed_range_no_data:
  assumes "df a = Some d" and "well_dated parse d"
    and "start_date_entry a \<noteq> []" and "end_date_entry a \<noteq> []"
    and "strptime (start_date_entry a) = Some s" and "strptime (end_date_entry a) = Some e"
    and "e < s"
  shows "\<exists>stored. filter_by_range parse d s e = Inr (stored, stored\<lparr>rows := []\<rparr>)
      \<and> analyze_with_date_filter strptime parse a = ([ShowInfo NoData], a\<lparr>df := Some stored\<rparr>)
      \<and> (\<forall>g. analyze_attendance g \<noteq> [ShowInfo NoData])"
proof -
  obtain stored where f: "filter_by_range parse d s e = Inr (stored, stored\<lparr>rows := []\<rparr>)"
    using filter_by_range_reversed[OF assms(2) assms(7)] by blast
  have "analyze_with_date_filter strptime parse a = ([ShowInfo NoData], a\<lparr>df := Some stored\<rparr>)"
    using assms(1,3,4,5,6) f by (simp add: analyze_with_date_filter_def)
  then show ?thesis using f analyze_attendance_not_no_data by blast
qed

theorem reversed_range_no_data_witness:
  "df reversed_app = Some sample_frame \<and> well_dated sample_parse sample_frame
   \<and> sample_parse (start_date_entry reversed_app) = Some 1706745600000000000
   \<and> sample_parse (end_date_entry reversed_app) = Some 1704067200000000000
   \<and> fst (analyze_with_date_filter sample_parse sample_parse reversed_app) = [ShowInfo NoData]"
proof -
  have h: "df reversed_app = Some sample_frame" "start_date_entry reversed_app \<noteq> []"
    "end_date_entry reversed_app \<noteq> []"
    "sample_parse (start_date_entry reversed_app) = Some 1706745600000000000"
    "sample_parse (end_date_entry reversed_app) = Some 1704067200000000000"
    by (simp_all add: reversed_app_def sample_parse_def)
  have lt: "(1704067200000000000::int) < 1706745600000000000" by simp
  from reversed_range_no_data[OF h(1) sample_frame_well_dated h(2,3,4,5) lt]
  have "fst (analyze_with_date_filter sample_parse sample_parse reversed_app) = [ShowInfo NoData]"
    by auto
  then show ?thesis using h sample_frame_well_dated by simp
qed

end
